theory Spec2Isabelle
  imports Main "HOL-Library.Sublist"
begin

section \<open>Data model\<close>

text \<open>
  Go strings are byte strings: \<open>string\<close> is a list of 8-bit characters and \<open>length\<close> is
  Go's \<open>len\<close>. The struct \<open>ISO3166\<close> and the table \<open>GetISO3166()\<close> are declared
  outside \<open>phonenumber.go\<close>; the record below has the fields that file reads, and every
  function that scans the table takes it as the parameter \<open>tbl\<close>.

  Go's \<open>int\<close> is modelled as \<open>int\<close>. The only arithmetic of the file is
  \<open>len(countryCode) + l\<close>, compared for equality with a string length: a 64-bit sum that
  wraps around is negative and the exact sum is above every length, so the comparison comes
  out the same (\<open>length_sum_no_wrap\<close> below, with \<open>wrapInt64\<close> the 64-bit result).
\<close>

definition wrapInt64 :: "int \<Rightarrow> int" where
  "wrapInt64 x = (x + 2 ^ 63) mod 2 ^ 64 - 2 ^ 63"

record ISO3166 =
  Alpha2 :: string
  Alpha3 :: string
  CountryCode :: string
  CountryName :: string
  MobileBeginWith :: "string list"
  PhoneNumberLengths :: "int list"

text \<open>The zero value \<open>ISO3166{}\<close>.\<close>

definition zeroISO3166 :: ISO3166 where
  "zeroISO3166 = \<lparr>Alpha2 = [], Alpha3 = [], CountryCode = [], CountryName = [],
     MobileBeginWith = [], PhoneNumberLengths = []\<rparr>"

text \<open>
  What is not a returned value is an error value. \<open>IndexOutOfRange\<close> is the panic of
  \<open>GetISO3166()[0]\<close> on an empty table. \<open>RegexpCompile\<close> stands for a pattern outside
  the fragment of the syntax modelled below: \<open>regexp.MustCompile\<close> panics on some of those
  and compiles the others to expressions this theory does not describe.
\<close>

datatype error = IndexOutOfRange | RegexpCompile

section \<open>Regular expressions\<close>

text \<open>
  The package-level expressions are fixed, so each is modelled by what it computes on a
  byte string: \<open>\D\<close> with \<open>ReplaceAllString(_, "")\<close> keeps the ASCII digits,
  \<open>^0+\<close> and \<open>^8+\<close> with \<open>ReplaceAllString(_, "")\<close> drop the leading run of that digit,
  and \<open>^89\<close> with \<open>MatchString\<close> is a prefix test.
\<close>

definition isDigit :: "char \<Rightarrow> bool" where
  "isDigit c = (c \<in> set ''0123456789'')"

definition digitsOnly :: "string \<Rightarrow> string" where
  "digitsOnly s = filter isDigit s"

definition leadZero :: "string \<Rightarrow> string" where
  "leadZero s = dropWhile (\<lambda>c. c = CHR ''0'') s"

definition rusLocalePrefix :: "string \<Rightarrow> string" where
  "rusLocalePrefix s = dropWhile (\<lambda>c. c = CHR ''8'') s"

definition rusLocaleMobPrefix :: "string \<Rightarrow> bool" where
  "rusLocaleMobPrefix s = prefix ''89'' s"

text \<open>
  \<open>getRegexpByCountryCode\<close> compiles \<open>"^" + countryCode\<close> with the key pasted into the
  pattern unquoted, so the key is read as regular-expression syntax. The model covers this
  fragment of the syntax: after the anchor, a sequence of ASCII letters and digits, each
  standing for itself, each optionally followed by \<open>?\<close> (zero or one, preferring one).
  Every other pattern is \<open>Inl RegexpCompile\<close>.
\<close>

datatype atom = Lit char | Opt char

datatype regexp = Anchored (atoms: "atom list")

definition isLiteral :: "char \<Rightarrow> bool" where
  "isLiteral c = (c \<in> set ''0123456789ABCDEFGHIJKLMNOPQRSTUVWXYZabcdefghijklmnopqrstuvwxyz'')"

fun parseAtoms :: "string \<Rightarrow> atom list option" where
  "parseAtoms [] = Some []"
| "parseAtoms (c # cs) =
     (if \<not> isLiteral c then None
      else case cs of
        q # rest \<Rightarrow>
          if q = CHR ''?'' then map_option (\<lambda>as. Opt c # as) (parseAtoms rest)
          else map_option (\<lambda>as. Lit c # as) (parseAtoms cs)
      | [] \<Rightarrow> Some [Lit c])"

definition MustCompile :: "string \<Rightarrow> error + regexp" where
  "MustCompile pat =
     (case pat of
        c # cs \<Rightarrow>
          if c = CHR ''^'' then
            (case parseAtoms cs of Some as \<Rightarrow> Inr (Anchored as) | None \<Rightarrow> Inl RegexpCompile)
          else Inl RegexpCompile
      | [] \<Rightarrow> Inl RegexpCompile)"

text \<open>
  \<open>matchAtoms as s\<close> is the text left after the leftmost-first match of the atoms at the
  start of \<open>s\<close>, or \<open>None\<close> when there is no match.
\<close>

fun matchAtoms :: "atom list \<Rightarrow> string \<Rightarrow> string option" where
  "matchAtoms [] s = Some s"
| "matchAtoms (Lit c # as) s =
     (case s of x # xs \<Rightarrow> if x = c then matchAtoms as xs else None | [] \<Rightarrow> None)"
| "matchAtoms (Opt c # as) s =
     (case s of
        x # xs \<Rightarrow>
          if x = c then (case matchAtoms as xs of Some r \<Rightarrow> Some r | None \<Rightarrow> matchAtoms as s)
          else matchAtoms as s
      | [] \<Rightarrow> matchAtoms as s)"

definition MatchString :: "regexp \<Rightarrow> string \<Rightarrow> bool" where
  "MatchString r s = (matchAtoms (atoms r) s \<noteq> None)"

text \<open>\<open>r.ReplaceAllString(s, "")\<close>: an anchored expression matches at most once, at the start.\<close>

definition ReplaceAllString :: "regexp \<Rightarrow> string \<Rightarrow> string" where
  "ReplaceAllString r s = (case matchAtoms (atoms r) s of Some rest \<Rightarrow> rest | None \<Rightarrow> s)"

section \<open>The pattern cache\<close>

text \<open>
  \<open>rMap\<close> is a global map from keys to compiled expressions; every function that calls
  \<open>getRegexpByCountryCode\<close> takes the cache and returns it updated. The lock serialises
  the calls, so a call is one step on the cache.
\<close>

type_synonym rcache = "string \<rightharpoonup> regexp"

definition getRegexpByCountryCode :: "string \<Rightarrow> rcache \<Rightarrow> error + (regexp \<times> rcache)" where
  "getRegexpByCountryCode countryCode rMap =
     (case rMap countryCode of
        Some regex \<Rightarrow> Inr (regex, rMap)
      | None \<Rightarrow>
          (case MustCompile (CHR ''^'' # countryCode) of
             Inl e \<Rightarrow> Inl e
           | Inr regex \<Rightarrow> Inr (regex, rMap(countryCode \<mapsto> regex))))"

text \<open>
  The invariant of the cache: every entry is the expression compiled from its key. It holds
  of the empty cache the program starts with, and \<open>getRegexpByCountryCode\<close>, the only
  writer, keeps it.
\<close>

definition cache_ok :: "rcache \<Rightarrow> bool" where
  "cache_ok rMap = (\<forall>k r. rMap k = Some r \<longrightarrow> MustCompile (CHR ''^'' # k) = Inr r)"

text \<open>A call \<open>yields\<close> a value when it returns it without panicking and leaves a good cache.\<close>

definition yields :: "error + ('a \<times> rcache) \<Rightarrow> 'a \<Rightarrow> bool" where
  "yields res v = (\<exists>rMap'. res = Inr (v, rMap') \<and> cache_ok rMap')"

section \<open>Validation\<close>

fun indexOfString :: "string \<Rightarrow> string list \<Rightarrow> int" where
  "indexOfString word [] = -1"
| "indexOfString word (v # data) =
     (if word = v then 0
      else let k = indexOfString word data in if k = -1 then -1 else k + 1)"

fun indexOfInt :: "int \<Rightarrow> int list \<Rightarrow> int" where
  "indexOfInt word [] = -1"
| "indexOfInt word (v # data) =
     (if word = v then 0
      else let k = indexOfInt word data in if k = -1 then -1 else k + 1)"

text \<open>
  The loop over the mobile prefixes, shared by \<open>validateMobileISO3166\<close> (keys \<open>w\<close>, so
  \<open>pre\<close> is empty) and \<open>GetISO3166ByNumber\<close> (keys \<open>i.CountryCode + w\<close>): it
  returns at the first key whose expression matches.
\<close>

fun mobileLoop :: "string \<Rightarrow> string list \<Rightarrow> string \<Rightarrow> rcache \<Rightarrow> error + (bool \<times> rcache)" where
  "mobileLoop pre [] number rMap = Inr (False, rMap)"
| "mobileLoop pre (w # ws) number rMap =
     (case getRegexpByCountryCode (pre @ w) rMap of
        Inl e \<Rightarrow> Inl e
      | Inr (rm, rMap1) \<Rightarrow>
          if MatchString rm number then Inr (True, rMap1)
          else mobileLoop pre ws number rMap1)"

fun mobileLengthsLoop ::
  "int list \<Rightarrow> string list \<Rightarrow> string \<Rightarrow> rcache \<Rightarrow> error + (bool \<times> rcache)" where
  "mobileLengthsLoop [] ws number rMap = Inr (False, rMap)"
| "mobileLengthsLoop (l # ls) ws number rMap =
     (if l = int (length number) then
        (case mobileLoop [] ws number rMap of
           Inl e \<Rightarrow> Inl e
         | Inr (found, rMap1) \<Rightarrow>
             if found then Inr (True, rMap1) else mobileLengthsLoop ls ws number rMap1)
      else mobileLengthsLoop ls ws number rMap)"

definition validateMobileISO3166 ::
  "string \<Rightarrow> ISO3166 \<Rightarrow> rcache \<Rightarrow> error + (bool \<times> rcache)" where
  "validateMobileISO3166 number iso3166 rMap =
     (if length (PhoneNumberLengths iso3166) = 0 then Inr (False, rMap)
      else case getRegexpByCountryCode (CountryCode iso3166) rMap of
        Inl e \<Rightarrow> Inl e
      | Inr (r, rMap1) \<Rightarrow>
          mobileLengthsLoop (PhoneNumberLengths iso3166) (MobileBeginWith iso3166)
            (ReplaceAllString r number) rMap1)"

fun landlineLoop :: "int list \<Rightarrow> regexp \<Rightarrow> string \<Rightarrow> string \<Rightarrow> bool" where
  "landlineLoop [] r countryCode number = False"
| "landlineLoop (l # ls) r countryCode number =
     (if MatchString r number \<and> int (length number) = int (length countryCode) + l then True
      else landlineLoop ls r countryCode number)"

definition validateLandlineISO3166 ::
  "string \<Rightarrow> ISO3166 \<Rightarrow> rcache \<Rightarrow> error + (bool \<times> rcache)" where
  "validateLandlineISO3166 number iso3166 rMap =
     (if length (PhoneNumberLengths iso3166) = 0 then Inr (False, rMap)
      else case getRegexpByCountryCode (CountryCode iso3166) rMap of
        Inl e \<Rightarrow> Inl e
      | Inr (r, rMap1) \<Rightarrow>
          Inr (landlineLoop (PhoneNumberLengths iso3166) r (CountryCode iso3166) number, rMap1))"

definition validatePhoneISO3166 ::
  "string \<Rightarrow> ISO3166 \<Rightarrow> rcache \<Rightarrow> error + ((bool \<times> bool) \<times> rcache)" where
  "validatePhoneISO3166 number iso3166 rMap =
     (case validateLandlineISO3166 number iso3166 rMap of
        Inl e \<Rightarrow> Inl e
      | Inr (landline, rMap1) \<Rightarrow>
          if \<not> landline then Inr ((False, False), rMap1)
          else (case validateMobileISO3166 number iso3166 rMap1 of
            Inl e \<Rightarrow> Inl e
          | Inr (mobile, rMap2) \<Rightarrow> Inr ((True, mobile), rMap2)))"

section \<open>Lookup by number\<close>

text \<open>
  How the loop over \<open>i.PhoneNumberLengths\<close> inside \<open>GetISO3166ByNumber\<close> ends for one
  record: \<open>Returned\<close> is \<open>return i\<close>, \<open>Broke\<close> is \<open>iso3166 = i; break\<close>, and
  \<open>Finished\<close> is the loop running to its end.
\<close>

datatype exit = Returned | Broke | Finished

fun numberLengthsLoop ::
  "int list \<Rightarrow> ISO3166 \<Rightarrow> regexp \<Rightarrow> string \<Rightarrow> bool \<Rightarrow> rcache \<Rightarrow> error + (exit \<times> rcache)" where
  "numberLengthsLoop [] i r number withLandLine rMap = Inr (Finished, rMap)"
| "numberLengthsLoop (l # ls) i r number withLandLine rMap =
     (if MatchString r number \<and> int (length number) = int (length (CountryCode i)) + l then
        (case mobileLoop (CountryCode i) (MobileBeginWith i) number rMap of
           Inl e \<Rightarrow> Inl e
         | Inr (found, rMap1) \<Rightarrow>
             if found then Inr (Returned, rMap1)
             else if withLandLine then Inr (Broke, rMap1)
             else numberLengthsLoop ls i r number withLandLine rMap1)
      else numberLengthsLoop ls i r number withLandLine rMap)"

text \<open>The loop over the table; \<open>iso3166\<close> is the variable the loop assigns.\<close>

fun numberLoop ::
  "ISO3166 list \<Rightarrow> string \<Rightarrow> bool \<Rightarrow> ISO3166 \<Rightarrow> rcache \<Rightarrow> error + (ISO3166 \<times> rcache)" where
  "numberLoop [] number withLandLine iso3166 rMap = Inr (iso3166, rMap)"
| "numberLoop (i # is) number withLandLine iso3166 rMap =
     (case getRegexpByCountryCode (CountryCode i) rMap of
        Inl e \<Rightarrow> Inl e
      | Inr (r, rMap1) \<Rightarrow>
          (case numberLengthsLoop (PhoneNumberLengths i) i r number withLandLine rMap1 of
             Inl e \<Rightarrow> Inl e
           | Inr (Returned, rMap2) \<Rightarrow> Inr (i, rMap2)
           | Inr (Broke, rMap2) \<Rightarrow> numberLoop is number withLandLine i rMap2
           | Inr (Finished, rMap2) \<Rightarrow> numberLoop is number withLandLine iso3166 rMap2))"

definition GetISO3166ByNumber ::
  "ISO3166 list \<Rightarrow> string \<Rightarrow> bool \<Rightarrow> rcache \<Rightarrow> error + (ISO3166 \<times> rcache)" where
  "GetISO3166ByNumber tbl number withLandLine rMap =
     numberLoop tbl number withLandLine zeroISO3166 rMap"

section \<open>Country resolution\<close>

text \<open>
  \<open>strings.ToUpper\<close> belongs to the Go library and follows the Unicode tables; it is the
  parameter \<open>ToUpper\<close>, so every statement holds for whatever it computes.
  \<open>firstMatch\<close> is the loop \<open>for ... { if p(i) { iso3166 = i; break } }\<close> over the
  table, started from the zero value.
\<close>

fun firstMatch :: "(ISO3166 \<Rightarrow> bool) \<Rightarrow> ISO3166 list \<Rightarrow> ISO3166" where
  "firstMatch p [] = zeroISO3166"
| "firstMatch p (i # is) = (if p i then i else firstMatch p is)"

definition getISO3166ByCountry ::
  "ISO3166 list \<Rightarrow> (string \<Rightarrow> string) \<Rightarrow> string \<Rightarrow> error + ISO3166" where
  "getISO3166ByCountry tbl ToUpper country =
     (let uppperCaseCountry = ToUpper country in
      if length country = 0 then
        (case tbl of [] \<Rightarrow> Inl IndexOutOfRange | i # _ \<Rightarrow> Inr i)
      else if length country = 2 then
        Inr (firstMatch (\<lambda>i. Alpha2 i = uppperCaseCountry) tbl)
      else if length country = 3 then
        Inr (firstMatch (\<lambda>i. Alpha3 i = uppperCaseCountry) tbl)
      else
        Inr (firstMatch (\<lambda>i. ToUpper (CountryName i) = uppperCaseCountry) tbl))"

section \<open>Normalization\<close>

text \<open>
  \<open>strings.Replace(s, " ", "", -1)\<close> removes every space byte.
  \<open>removeFirst old s\<close> is \<open>strings.Replace(s, old, "", 1)\<close>: the first occurrence of
  \<open>old\<close> is removed, and an empty \<open>old\<close> leaves \<open>s\<close> as it is.
\<close>

definition removeSpaces :: "string \<Rightarrow> string" where
  "removeSpaces s = filter (\<lambda>c. c \<noteq> CHR '' '') s"

fun removeFirst :: "string \<Rightarrow> string \<Rightarrow> string" where
  "removeFirst old [] = []"
| "removeFirst old (c # cs) =
     (if prefix old (c # cs) then drop (length old) (c # cs) else c # removeFirst old cs)"

text \<open>
  The steps of \<open>parseInternal\<close> that follow the resolution of the country, in the order of
  the source: \<open>stripCodeZero\<close> is the block under \<open>strings.HasPrefix(number,
  iso3166.CountryCode)\<close>, \<open>normalizeDigits\<close> runs it and the three steps after it.
\<close>

definition stripCodeZero :: "string \<Rightarrow> string \<Rightarrow> string" where
  "stripCodeZero countryCode number =
     (if prefix countryCode number then
        (let withoutCountryCode = removeFirst countryCode number;
             withoutCountryCode1 =
               (if prefix ''0'' withoutCountryCode then removeFirst ''0'' withoutCountryCode
                else withoutCountryCode)
         in countryCode @ withoutCountryCode1)
      else number)"

definition normalizeDigits :: "ISO3166 \<Rightarrow> string \<Rightarrow> string" where
  "normalizeDigits iso3166 number =
     (let number1 = stripCodeZero (CountryCode iso3166) number;
          number2 =
        (if indexOfString (Alpha3 iso3166) [''GAB'', ''CIV'', ''COG''] = -1 then leadZero number1
         else number1);
          number3 =
        (if Alpha3 iso3166 = ''RUS'' \<and> length number2 = 11 \<and> rusLocaleMobPrefix number2
         then rusLocalePrefix number2 else number2)
      in if indexOfInt (int (length number3)) (PhoneNumberLengths iso3166) \<noteq> -1
         then CountryCode iso3166 @ number3 else number3)"

definition parseInternal ::
  "ISO3166 list \<Rightarrow> (string \<Rightarrow> string) \<Rightarrow> string \<Rightarrow> string \<Rightarrow> error + (string \<times> ISO3166)" where
  "parseInternal tbl ToUpper number country =
     (let number1 = removeSpaces number; country1 = removeSpaces country in
      if prefix ''+'' number1 \<and> country1 = [] then Inr ([], zeroISO3166)
      else case getISO3166ByCountry tbl ToUpper country1 of
        Inl e \<Rightarrow> Inl e
      | Inr iso3166 \<Rightarrow> Inr (normalizeDigits iso3166 (digitsOnly number1), iso3166))"

section \<open>The public operations\<close>

definition Parse ::
  "ISO3166 list \<Rightarrow> (string \<Rightarrow> string) \<Rightarrow> string \<Rightarrow> string \<Rightarrow> rcache \<Rightarrow> error + (string \<times> rcache)" where
  "Parse tbl ToUpper number country rMap =
     (case parseInternal tbl ToUpper number country of
        Inl e \<Rightarrow> Inl e
      | Inr (parsed, iso3166) \<Rightarrow>
          (case validateMobileISO3166 parsed iso3166 rMap of
             Inl e \<Rightarrow> Inl e
           | Inr (ok, rMap1) \<Rightarrow> Inr (if ok then parsed else [], rMap1)))"

definition ParseWithLandLine ::
  "ISO3166 list \<Rightarrow> (string \<Rightarrow> string) \<Rightarrow> string \<Rightarrow> string \<Rightarrow> rcache \<Rightarrow> error + (string \<times> rcache)" where
  "ParseWithLandLine tbl ToUpper number country rMap =
     (case parseInternal tbl ToUpper number country of
        Inl e \<Rightarrow> Inl e
      | Inr (parsed, iso3166) \<Rightarrow>
          (case validateLandlineISO3166 parsed iso3166 rMap of
             Inl e \<Rightarrow> Inl e
           | Inr (ok, rMap1) \<Rightarrow> Inr (if ok then parsed else [], rMap1)))"

definition ParseWithFlags ::
  "ISO3166 list \<Rightarrow> (string \<Rightarrow> string) \<Rightarrow> string \<Rightarrow> string \<Rightarrow> rcache
     \<Rightarrow> error + ((string \<times> bool \<times> bool) \<times> rcache)" where
  "ParseWithFlags tbl ToUpper number country rMap =
     (case parseInternal tbl ToUpper number country of
        Inl e \<Rightarrow> Inl e
      | Inr (parsed, iso3166) \<Rightarrow>
          (case validatePhoneISO3166 parsed iso3166 rMap of
             Inl e \<Rightarrow> Inl e
           | Inr ((valid, mobile), rMap1) \<Rightarrow>
               Inr ((if \<not> valid then [] else parsed, valid, mobile), rMap1)))"

section \<open>Well-formed records and the checks in the words of the specification\<close>

text \<open>
  The data model makes \<open>countryCode\<close> a digit string and \<open>mobileBeginWith\<close> a list of
  digit-string prefixes.
\<close>

definition digitString :: "string \<Rightarrow> bool" where
  "digitString s = (\<forall>c \<in> set s. isDigit c)"

definition literalString :: "string \<Rightarrow> bool" where
  "literalString s = (\<forall>c \<in> set s. isLiteral c)"

definition wfRecord :: "ISO3166 \<Rightarrow> bool" where
  "wfRecord i = (digitString (CountryCode i) \<and> (\<forall>w \<in> set (MobileBeginWith i). digitString w))"

definition wfTable :: "ISO3166 list \<Rightarrow> bool" where
  "wfTable tbl = (\<forall>i \<in> set tbl. wfRecord i)"

text \<open>The national part: the digits with the country code removed from the front, when there.\<close>

definition nationalPart :: "string \<Rightarrow> string \<Rightarrow> string" where
  "nationalPart countryCode digits =
     (if prefix countryCode digits then drop (length countryCode) digits else digits)"

definition landlineValid :: "string \<Rightarrow> ISO3166 \<Rightarrow> bool" where
  "landlineValid digits country =
     (PhoneNumberLengths country \<noteq> [] \<and> prefix (CountryCode country) digits \<and>
      (\<exists>l \<in> set (PhoneNumberLengths country).
         int (length digits) = int (length (CountryCode country)) + l))"

definition mobileValid :: "string \<Rightarrow> ISO3166 \<Rightarrow> bool" where
  "mobileValid digits country =
     (PhoneNumberLengths country \<noteq> [] \<and>
      (\<exists>l \<in> set (PhoneNumberLengths country).
         l = int (length (nationalPart (CountryCode country) digits))) \<and>
      (\<exists>w \<in> set (MobileBeginWith country).
         prefix w (nationalPart (CountryCode country) digits)))"

text \<open>
  The test \<open>GetISO3166ByNumber\<close> makes of a record for a mobile match: the total length
  and the country code fit, and the number begins with the country code followed by one of
  the mobile prefixes.
\<close>

definition mobileHit :: "string \<Rightarrow> ISO3166 \<Rightarrow> bool" where
  "mobileHit number i =
     (landlineValid number i \<and>
      (\<exists>w \<in> set (MobileBeginWith i). prefix (CountryCode i @ w) number))"

section \<open>Sample records\<close>

text \<open>\<open>strings.ToUpper\<close> on ASCII text, and records of the shape the data model describes.\<close>

definition asciiUpper :: "string \<Rightarrow> string" where
  "asciiUpper s =
     map (\<lambda>c. case map_of (zip ''abcdefghijklmnopqrstuvwxyz'' ''ABCDEFGHIJKLMNOPQRSTUVWXYZ'') c of
                 Some u \<Rightarrow> u | None \<Rightarrow> c) s"

definition FRA :: ISO3166 where
  "FRA = \<lparr>Alpha2 = ''FR'', Alpha3 = ''FRA'', CountryCode = ''33'', CountryName = ''France'',
     MobileBeginWith = [''6'', ''7''], PhoneNumberLengths = [9]\<rparr>"

definition DEU :: ISO3166 where
  "DEU = \<lparr>Alpha2 = ''DE'', Alpha3 = ''DEU'', CountryCode = ''49'', CountryName = ''Germany'',
     MobileBeginWith = [''15'', ''16'', ''17''], PhoneNumberLengths = [9, 10, 11]\<rparr>"

definition KAZ :: ISO3166 where
  "KAZ = \<lparr>Alpha2 = ''KZ'', Alpha3 = ''KAZ'', CountryCode = ''7'', CountryName = ''Kazakhstan'',
     MobileBeginWith = [''70'', ''74'', ''77''], PhoneNumberLengths = [10]\<rparr>"

definition CIV :: ISO3166 where
  "CIV = \<lparr>Alpha2 = ''CI'', Alpha3 = ''CIV'', CountryCode = ''225'', CountryName = ''Ivory Coast'',
     MobileBeginWith = [''01'', ''05'', ''07''], PhoneNumberLengths = [10]\<rparr>"

definition anyMobile :: ISO3166 where
  "anyMobile = \<lparr>Alpha2 = ''XA'', Alpha3 = ''XAA'', CountryCode = ''99'', CountryName = ''Anyland'',
     MobileBeginWith = [''''], PhoneNumberLengths = [3]\<rparr>"

definition FRL :: ISO3166 where
  "FRL = \<lparr>Alpha2 = ''FX'', Alpha3 = ''FXX'', CountryCode = ''33'', CountryName = ''Overseas'',
     MobileBeginWith = [''8''], PhoneNumberLengths = [9]\<rparr>"

text \<open>Two records whose country codes no dialling plan has: one begins with 0, one with 89.\<close>

definition codeZero :: ISO3166 where
  "codeZero = \<lparr>Alpha2 = ''ZZ'', Alpha3 = ''ZZZ'', CountryCode = ''01'', CountryName = ''Zeroland'',
     MobileBeginWith = [''1''], PhoneNumberLengths = [3]\<rparr>"


definition sampleTable :: "ISO3166 list" where
  "sampleTable = [FRA, DEU, KAZ, CIV]"

section \<open>The sum of lengths in 64 bits\<close>

lemma length_sum_no_wrap:
  assumes "0 \<le> a" and "a < 2 ^ 63" and "0 \<le> n" and "n < 2 ^ 63"
    and "- (2 ^ 63) \<le> l" and "l < 2 ^ 63"
  shows "(wrapInt64 (a + l) = n) = (a + l = n)"
proof (cases "a + l < 2 ^ 63")
  case True
  with assms have "0 \<le> a + l + 2 ^ 63" and "a + l + 2 ^ 63 < 2 ^ 64" by simp_all
  then have "(a + l + 2 ^ 63) mod 2 ^ 64 = a + l + 2 ^ 63" by (rule mod_pos_pos_trivial)
  then show ?thesis by (simp add: wrapInt64_def)
next
  case False
  with assms have "0 \<le> a + l + 2 ^ 63 - 2 ^ 64" and "a + l + 2 ^ 63 - 2 ^ 64 < 2 ^ 64" by simp_all
  then have "(a + l + 2 ^ 63 - 2 ^ 64) mod 2 ^ 64 = a + l + 2 ^ 63 - 2 ^ 64"
    by (rule mod_pos_pos_trivial)
  moreover have "(a + l + 2 ^ 63 - 2 ^ 64) mod 2 ^ 64 = (a + l + 2 ^ 63) mod (2 ^ 64 :: int)"
    by (metis minus_mod_self2)
  ultimately have "wrapInt64 (a + l) = a + l - 2 ^ 64" by (simp add: wrapInt64_def)
  with False assms show ?thesis by simp
qed

section \<open>The cache and the validators on well-formed records\<close>

lemma isDigit_isLiteral: "isDigit c \<Longrightarrow> isLiteral c"
  by (auto simp: isDigit_def isLiteral_def)

lemma digitString_literalString: "digitString s \<Longrightarrow> literalString s"
  by (simp add: digitString_def literalString_def isDigit_isLiteral)

lemma question_not_literal: "\<not> isLiteral (CHR ''?'')"
  by (simp add: isLiteral_def)

lemma literalString_Cons: "literalString (c # cs) = (isLiteral c \<and> literalString cs)"
  by (simp add: literalString_def)

lemma literalString_append: "literalString (xs @ ys) = (literalString xs \<and> literalString ys)"
  by (auto simp: literalString_def)

lemma parseAtoms_literal: "literalString s \<Longrightarrow> parseAtoms s = Some (map Lit s)"
proof (induction s)
  case Nil
  then show ?case by simp
next
  case (Cons c cs)
  then have c: "isLiteral c" and cs: "literalString cs"
    by (simp_all add: literalString_Cons)
  show ?case
  proof (cases cs)
    case Nil
    with c show ?thesis by simp
  next
    case (Cons q rest)
    with cs have "isLiteral q" by (simp add: literalString_Cons)
    then have "q \<noteq> CHR ''?''" using question_not_literal by auto
    with c Cons Cons.IH[OF cs] show ?thesis by simp
  qed
qed

lemma MustCompile_literal:
  "literalString k \<Longrightarrow> MustCompile (CHR ''^'' # k) = Inr (Anchored (map Lit k))"
  by (simp add: MustCompile_def parseAtoms_literal)

lemma matchAtoms_literal:
  "matchAtoms (map Lit k) s = (if prefix k s then Some (drop (length k) s) else None)"
  by (induction k arbitrary: s) (auto split: list.splits)

lemma MatchString_literal: "MatchString (Anchored (map Lit k)) s = prefix k s"
  by (simp add: MatchString_def matchAtoms_literal)

lemma ReplaceAllString_literal: "ReplaceAllString (Anchored (map Lit k)) s = nationalPart k s"
  by (simp add: ReplaceAllString_def matchAtoms_literal nationalPart_def)

lemma cache_ok_empty: "cache_ok Map.empty"
  by (simp add: cache_ok_def)

lemma getRegexp_literal:
  assumes "cache_ok rMap" and "literalString k"
  shows "yields (getRegexpByCountryCode k rMap) (Anchored (map Lit k))"
proof (cases "rMap k")
  case None
  with assms show ?thesis
    by (auto simp: yields_def getRegexpByCountryCode_def MustCompile_literal cache_ok_def)
next
  case (Some r)
  with assms(1) have "MustCompile (CHR ''^'' # k) = Inr r"
    by (simp add: cache_ok_def)
  with assms(2) have "r = Anchored (map Lit k)"
    by (simp add: MustCompile_literal)
  with Some assms show ?thesis
    by (simp add: yields_def getRegexpByCountryCode_def)
qed

lemma yieldsE: "yields res v \<Longrightarrow> (\<And>m. res = Inr (v, m) \<Longrightarrow> cache_ok m \<Longrightarrow> P) \<Longrightarrow> P"
  by (auto simp: yields_def)

lemma mobileLoop_yields:
  assumes "cache_ok rMap" and "literalString pre" and "\<forall>w \<in> set ws. literalString w"
  shows "yields (mobileLoop pre ws number rMap) (\<exists>w \<in> set ws. prefix (pre @ w) number)"
  using assms
proof (induction ws arbitrary: rMap)
  case Nil
  then show ?case by (simp add: yields_def)
next
  case (Cons w ws)
  from Cons.prems have "literalString (pre @ w)" by (simp add: literalString_append)
  from getRegexp_literal[OF Cons.prems(1) this]
  obtain m where m: "getRegexpByCountryCode (pre @ w) rMap = Inr (Anchored (map Lit (pre @ w)), m)"
    and ok: "cache_ok m" by (rule yieldsE)
  show ?case
  proof (cases "prefix (pre @ w) number")
    case True
    with m ok show ?thesis by (simp add: yields_def MatchString_literal del: map_append)
  next
    case False
    from Cons.IH[OF ok Cons.prems(2)] Cons.prems(3)
    have "yields (mobileLoop pre ws number m) (\<exists>w \<in> set ws. prefix (pre @ w) number)" by simp
    with False m show ?thesis by (simp add: MatchString_literal del: map_append)
  qed
qed

lemma mobileLengthsLoop_yields:
  assumes "cache_ok rMap" and "\<forall>w \<in> set ws. literalString w"
  shows "yields (mobileLengthsLoop ls ws number rMap)
           ((\<exists>l \<in> set ls. l = int (length number)) \<and> (\<exists>w \<in> set ws. prefix w number))"
  using assms
proof (induction ls arbitrary: rMap)
  case Nil
  then show ?case by (simp add: yields_def)
next
  case (Cons l ls)
  show ?case
  proof (cases "l = int (length number)")
    case False
    with Cons.IH[OF Cons.prems] show ?thesis by simp
  next
    case True
    have "literalString []" by (simp add: literalString_def)
    from mobileLoop_yields[OF Cons.prems(1) this Cons.prems(2), of number]
    obtain m where m: "mobileLoop [] ws number rMap = Inr (\<exists>w \<in> set ws. prefix w number, m)"
      and ok: "cache_ok m" by (auto elim: yieldsE)
    show ?thesis
    proof (cases "\<exists>w \<in> set ws. prefix w number")
      case True
      with \<open>l = int (length number)\<close> m ok show ?thesis by (simp add: yields_def)
    next
      case False
      with Cons.IH[OF ok Cons.prems(2)] have "yields (mobileLengthsLoop ls ws number m) False"
        by simp
      with False \<open>l = int (length number)\<close> m show ?thesis by simp
    qed
  qed
qed

lemma validateMobile_yields:
  assumes "cache_ok rMap" and "wfRecord iso3166"
  shows "yields (validateMobileISO3166 number iso3166 rMap) (mobileValid number iso3166)"
proof (cases "PhoneNumberLengths iso3166 = []")
  case True
  with assms(1) show ?thesis
    by (simp add: validateMobileISO3166_def mobileValid_def yields_def)
next
  case False
  from assms(2) have cc: "literalString (CountryCode iso3166)"
    and ws: "\<forall>w \<in> set (MobileBeginWith iso3166). literalString w"
    by (simp_all add: wfRecord_def digitString_literalString)
  from getRegexp_literal[OF assms(1) cc]
  obtain m where m: "getRegexpByCountryCode (CountryCode iso3166) rMap
      = Inr (Anchored (map Lit (CountryCode iso3166)), m)"
    and ok: "cache_ok m" by (rule yieldsE)
  from mobileLengthsLoop_yields[OF ok ws] False m show ?thesis
    by (simp add: validateMobileISO3166_def mobileValid_def ReplaceAllString_literal)
qed

lemma landlineLoop_literal:
  "landlineLoop ls (Anchored (map Lit cc)) cc number =
     (prefix cc number \<and> (\<exists>l \<in> set ls. int (length number) = int (length cc) + l))"
  by (induction ls) (auto simp: MatchString_literal)

lemma validateLandline_yields:
  assumes "cache_ok rMap" and "wfRecord iso3166"
  shows "yields (validateLandlineISO3166 number iso3166 rMap) (landlineValid number iso3166)"
proof (cases "PhoneNumberLengths iso3166 = []")
  case True
  with assms(1) show ?thesis
    by (simp add: validateLandlineISO3166_def landlineValid_def yields_def)
next
  case False
  from assms(2) have cc: "literalString (CountryCode iso3166)"
    by (simp add: wfRecord_def digitString_literalString)
  from getRegexp_literal[OF assms(1) cc]
  obtain m where m: "getRegexpByCountryCode (CountryCode iso3166) rMap
      = Inr (Anchored (map Lit (CountryCode iso3166)), m)"
    and ok: "cache_ok m" by (rule yieldsE)
  with False show ?thesis
    by (simp add: validateLandlineISO3166_def landlineValid_def landlineLoop_literal yields_def)
qed

lemma validatePhone_yields:
  assumes "cache_ok rMap" and "wfRecord iso3166"
  shows "yields (validatePhoneISO3166 number iso3166 rMap)
           (landlineValid number iso3166, landlineValid number iso3166 \<and> mobileValid number iso3166)"
proof -
  from validateLandline_yields[OF assms, of number]
  obtain m where m: "validateLandlineISO3166 number iso3166 rMap = Inr (landlineValid number iso3166, m)"
    and ok: "cache_ok m" by (rule yieldsE)
  show ?thesis
  proof (cases "landlineValid number iso3166")
    case False
    with m ok show ?thesis by (simp add: validatePhoneISO3166_def yields_def)
  next
    case True
    from validateMobile_yields[OF ok assms(2), of number]
    obtain m2 where "validateMobileISO3166 number iso3166 m = Inr (mobileValid number iso3166, m2)"
      and "cache_ok m2" by (rule yieldsE)
    with True m show ?thesis by (simp add: validatePhoneISO3166_def yields_def)
  qed
qed

section \<open>Resolution and normalization: records returned, zero record\<close>

lemma firstMatch_find:
  "firstMatch p tbl = (case find p tbl of Some i \<Rightarrow> i | None \<Rightarrow> zeroISO3166)"
  by (induction tbl) simp_all

lemma firstMatch_cases: "firstMatch p tbl = zeroISO3166 \<or> firstMatch p tbl \<in> set tbl"
  by (induction tbl) auto

lemma wfRecord_zero: "wfRecord zeroISO3166"
  by (simp add: wfRecord_def zeroISO3166_def digitString_def)

lemma firstMatch_wf: "wfTable tbl \<Longrightarrow> wfRecord (firstMatch p tbl)"
  using firstMatch_cases[of p tbl] by (auto simp: wfTable_def wfRecord_zero)

lemma getISO3166ByCountry_wf:
  "wfTable tbl \<Longrightarrow> getISO3166ByCountry tbl ToUpper country = Inr iso3166 \<Longrightarrow> wfRecord iso3166"
  by (auto simp: getISO3166ByCountry_def Let_def firstMatch_wf wfTable_def
      split: if_splits list.splits)

lemma getISO3166ByCountry_total:
  "tbl \<noteq> [] \<Longrightarrow> \<exists>iso3166. getISO3166ByCountry tbl ToUpper country = Inr iso3166"
  by (cases tbl) (simp_all add: getISO3166ByCountry_def Let_def)

lemma parseInternal_wf:
  "wfTable tbl \<Longrightarrow> parseInternal tbl ToUpper number country = Inr (parsed, iso3166)
     \<Longrightarrow> wfRecord iso3166"
  by (auto simp: parseInternal_def Let_def wfRecord_zero split: if_splits sum.splits
      dest: getISO3166ByCountry_wf)

lemma parseInternal_total:
  "tbl \<noteq> [] \<Longrightarrow> \<exists>parsed iso3166. parseInternal tbl ToUpper number country = Inr (parsed, iso3166)"
  using getISO3166ByCountry_total[of tbl ToUpper "removeSpaces country"]
  by (auto simp: parseInternal_def Let_def)

lemma validateMobile_zero: "validateMobileISO3166 number zeroISO3166 rMap = Inr (False, rMap)"
  by (simp add: validateMobileISO3166_def zeroISO3166_def)

lemma validateLandline_zero: "validateLandlineISO3166 number zeroISO3166 rMap = Inr (False, rMap)"
  by (simp add: validateLandlineISO3166_def zeroISO3166_def)

lemma validatePhone_zero: "validatePhoneISO3166 number zeroISO3166 rMap = Inr ((False, False), rMap)"
  by (simp add: validatePhoneISO3166_def validateLandline_zero)

lemma wf_FRA: "wfRecord FRA"
  by (simp add: wfRecord_def FRA_def digitString_def isDigit_def)


section \<open>The scan of the table by number\<close>

lemma find_snoc:
  "find P (xs @ [x]) = (case find P xs of Some y \<Rightarrow> Some y | None \<Rightarrow> if P x then Some x else None)"
  by (induction xs) simp_all

lemma numberLengthsLoop_yields:
  assumes "cache_ok rMap" and "wfRecord i"
  shows "yields (numberLengthsLoop ls i (Anchored (map Lit (CountryCode i))) number withLandLine rMap)
           (if prefix (CountryCode i) number \<and>
               (\<exists>l \<in> set ls. int (length number) = int (length (CountryCode i)) + l)
            then (if \<exists>w \<in> set (MobileBeginWith i). prefix (CountryCode i @ w) number then Returned
                  else if withLandLine then Broke else Finished)
            else Finished)"
  using assms(1)
proof (induction ls arbitrary: rMap)
  case Nil
  then show ?case by (simp add: yields_def)
next
  case (Cons l ls)
  let ?cc = "CountryCode i"
  let ?mob = "\<exists>w \<in> set (MobileBeginWith i). prefix (?cc @ w) number"
  show ?case
  proof (cases "prefix ?cc number \<and> int (length number) = int (length ?cc) + l")
    case False
    then have step: "numberLengthsLoop (l # ls) i (Anchored (map Lit ?cc)) number withLandLine rMap
        = numberLengthsLoop ls i (Anchored (map Lit ?cc)) number withLandLine rMap"
      by (auto simp: MatchString_literal)
    from False have eq: "(prefix ?cc number \<and>
        (\<exists>l \<in> set (l # ls). int (length number) = int (length ?cc) + l)) =
        (prefix ?cc number \<and> (\<exists>l \<in> set ls. int (length number) = int (length ?cc) + l))"
      by auto
    show ?thesis unfolding step eq by (rule Cons.IH[OF Cons.prems])
  next
    case True
    from assms(2) have "literalString ?cc" and "\<forall>w \<in> set (MobileBeginWith i). literalString w"
      by (simp_all add: wfRecord_def digitString_literalString)
    from mobileLoop_yields[OF Cons.prems this, of number]
    obtain m where m: "mobileLoop ?cc (MobileBeginWith i) number rMap = Inr (?mob, m)"
      and ok: "cache_ok m" by (rule yieldsE)
    show ?thesis
    proof (cases ?mob)
      case True
      with \<open>prefix ?cc number \<and> int (length number) = int (length ?cc) + l\<close> m ok
      show ?thesis by (simp add: yields_def MatchString_literal)
    next
      case nomob: False
      show ?thesis
      proof (cases withLandLine)
        case True
        with nomob \<open>prefix ?cc number \<and> int (length number) = int (length ?cc) + l\<close> m ok
        show ?thesis by (simp add: yields_def MatchString_literal)
      next
        case False
        with Cons.IH[OF ok] nomob
        have "yields (numberLengthsLoop ls i (Anchored (map Lit ?cc)) number withLandLine m) Finished"
          by (simp split: if_splits)
        with False nomob \<open>prefix ?cc number \<and> int (length number) = int (length ?cc) + l\<close> m
        show ?thesis by (simp add: MatchString_literal)
      qed
    qed
  qed
qed

lemma recordExit_yields:
  assumes "cache_ok rMap" and "wfRecord i"
  shows "\<exists>rMap1 rMap2. cache_ok rMap2 \<and>
           getRegexpByCountryCode (CountryCode i) rMap = Inr (Anchored (map Lit (CountryCode i)), rMap1) \<and>
           numberLengthsLoop (PhoneNumberLengths i) i (Anchored (map Lit (CountryCode i))) number
               withLandLine rMap1 =
             Inr (if mobileHit number i then Returned
                  else if landlineValid number i \<and> withLandLine then Broke else Finished, rMap2)"
proof -
  from assms(2) have "literalString (CountryCode i)"
    by (simp add: wfRecord_def digitString_literalString)
  from getRegexp_literal[OF assms(1) this]
  obtain m1 where m1: "getRegexpByCountryCode (CountryCode i) rMap
      = Inr (Anchored (map Lit (CountryCode i)), m1)" and ok1: "cache_ok m1" by (rule yieldsE)
  from numberLengthsLoop_yields[OF ok1 assms(2), of "PhoneNumberLengths i" number withLandLine]
  obtain m2 where "numberLengthsLoop (PhoneNumberLengths i) i (Anchored (map Lit (CountryCode i)))
      number withLandLine m1 =
      Inr (if prefix (CountryCode i) number \<and>
               (\<exists>l \<in> set (PhoneNumberLengths i). int (length number) = int (length (CountryCode i)) + l)
            then (if \<exists>w \<in> set (MobileBeginWith i). prefix (CountryCode i @ w) number then Returned
                  else if withLandLine then Broke else Finished)
            else Finished, m2)" and ok2: "cache_ok m2" by (rule yieldsE)
  moreover have "landlineValid number i = (prefix (CountryCode i) number \<and>
               (\<exists>l \<in> set (PhoneNumberLengths i). int (length number) = int (length (CountryCode i)) + l))"
    by (auto simp: landlineValid_def)
  ultimately have "numberLengthsLoop (PhoneNumberLengths i) i (Anchored (map Lit (CountryCode i)))
      number withLandLine m1 =
      Inr (if mobileHit number i then Returned
                  else if landlineValid number i \<and> withLandLine then Broke else Finished, m2)"
    by (simp add: mobileHit_def)
  with m1 ok2 show ?thesis by blast
qed

lemma numberLoop_yields:
  assumes "cache_ok rMap" and "wfTable tbl"
  shows "yields (numberLoop tbl number withLandLine iso3166 rMap)
           (case find (mobileHit number) tbl of
              Some i \<Rightarrow> i
            | None \<Rightarrow>
                if withLandLine then
                  (case find (landlineValid number) (rev tbl) of Some i \<Rightarrow> i | None \<Rightarrow> iso3166)
                else iso3166)"
  using assms
proof (induction tbl arbitrary: rMap iso3166)
  case Nil
  then show ?case by (simp add: yields_def)
next
  case (Cons i rest)
  from Cons.prems(2) have wfi: "wfRecord i" and wfis: "wfTable rest"
    by (simp_all add: wfTable_def)
  from recordExit_yields[OF Cons.prems(1) wfi, of number withLandLine]
  obtain m1 m2 where ok2: "cache_ok m2"
    and g: "getRegexpByCountryCode (CountryCode i) rMap = Inr (Anchored (map Lit (CountryCode i)), m1)"
    and l: "numberLengthsLoop (PhoneNumberLengths i) i (Anchored (map Lit (CountryCode i))) number
               withLandLine m1 =
             Inr (if mobileHit number i then Returned
                  else if landlineValid number i \<and> withLandLine then Broke else Finished, m2)"
    by blast
  show ?case
  proof (cases "mobileHit number i")
    case True
    with g l ok2 show ?thesis by (simp add: yields_def)
  next
    case nomob: False
    show ?thesis
    proof (cases "landlineValid number i \<and> withLandLine")
      case True
      with nomob g l Cons.IH[OF ok2 wfis, of i] show ?thesis
        by (simp add: find_snoc split: option.splits)
    next
      case False
      with nomob g l Cons.IH[OF ok2 wfis, of iso3166] show ?thesis
        by (auto simp: find_snoc split: option.splits)
    qed
  qed
qed

lemma numberLoop_skip:
  assumes "cache_ok rMap" and "wfTable pre" and "\<forall>j \<in> set pre. \<not> mobileHit number j"
  shows "\<exists>iso3166' rMap'. cache_ok rMap' \<and>
           (\<forall>post. numberLoop (pre @ post) number withLandLine iso3166 rMap
                     = numberLoop post number withLandLine iso3166' rMap')"
  using assms
proof (induction pre arbitrary: rMap iso3166)
  case Nil
  then show ?case by auto
next
  case (Cons i rest)
  from Cons.prems have wfi: "wfRecord i" and wfr: "wfTable rest"
    and nohit: "\<not> mobileHit number i" and nohits: "\<forall>j \<in> set rest. \<not> mobileHit number j"
    by (simp_all add: wfTable_def)
  from recordExit_yields[OF Cons.prems(1) wfi, of number withLandLine] nohit
  obtain m1 m2 where ok2: "cache_ok m2"
    and g: "getRegexpByCountryCode (CountryCode i) rMap = Inr (Anchored (map Lit (CountryCode i)), m1)"
    and l: "numberLengthsLoop (PhoneNumberLengths i) i (Anchored (map Lit (CountryCode i))) number
               withLandLine m1 =
             Inr (if landlineValid number i \<and> withLandLine then Broke else Finished, m2)"
    by auto
  show ?case
  proof (cases "landlineValid number i \<and> withLandLine")
    case True
    from Cons.IH[OF ok2 wfr nohits, of i]
    obtain a m where "cache_ok m" and "\<forall>post. numberLoop (rest @ post) number withLandLine i m2
        = numberLoop post number withLandLine a m" by blast
    with True g l show ?thesis by auto
  next
    case False
    from Cons.IH[OF ok2 wfr nohits, of iso3166]
    obtain a m where "cache_ok m" and "\<forall>post. numberLoop (rest @ post) number withLandLine iso3166 m2
        = numberLoop post number withLandLine a m" by blast
    with False g l show ?thesis by auto
  qed
qed

lemma wf_FRL: "wfRecord FRL"
  by (simp add: wfRecord_def FRL_def digitString_def isDigit_def)

lemma wf_anyMobile: "wfRecord anyMobile"
  by (simp add: wfRecord_def anyMobile_def digitString_def isDigit_def)


section \<open>Normalization of digit strings\<close>

lemma removeFirst_prefix: "prefix old s \<Longrightarrow> removeFirst old s = drop (length old) s"
  by (cases s) simp_all

lemma stripCodeZero_noprefix: "\<not> prefix cc s \<Longrightarrow> stripCodeZero cc s = s"
  by (simp add: stripCodeZero_def)

lemma stripCodeZero_prefix:
  "prefix cc s \<Longrightarrow> stripCodeZero cc s =
     cc @ (if prefix ''0'' (drop (length cc) s) then drop 1 (drop (length cc) s)
           else drop (length cc) s)"
  by (simp add: stripCodeZero_def removeFirst_prefix Let_def)

lemma prefix_append_drop:
  "prefix (cc @ t) s = (prefix cc s \<and> prefix t (drop (length cc) s))"
  by (auto simp: prefix_def)

lemma stripCodeZero_id:
  assumes "\<not> prefix (cc @ ''0'') s"
  shows "stripCodeZero cc s = s"
proof (cases "prefix cc s")
  case False
  then show ?thesis by (rule stripCodeZero_noprefix)
next
  case True
  with assms have "\<not> prefix ''0'' (drop (length cc) s)"
    by (simp add: prefix_append_drop)
  with True show ?thesis
    by (auto simp: stripCodeZero_prefix prefix_def)
qed

lemma digit_not_space: "isDigit c \<Longrightarrow> c \<noteq> CHR '' ''"
  by (auto simp: isDigit_def)

lemma digit_not_plus: "isDigit c \<Longrightarrow> c \<noteq> CHR ''+''"
  by (auto simp: isDigit_def)

lemma removeSpaces_digits: "digitString s \<Longrightarrow> removeSpaces s = s"
  by (induction s) (auto simp: digitString_def removeSpaces_def dest: digit_not_space)

lemma digitsOnly_digits: "digitString s \<Longrightarrow> digitsOnly s = s"
  by (induction s) (auto simp: digitString_def digitsOnly_def)

lemma digits_no_plus: "digitString s \<Longrightarrow> \<not> prefix ''+'' s"
  by (cases s) (auto simp: digitString_def dest: digit_not_plus)

lemma parseInternal_digits:
  assumes "digitString s" and "getISO3166ByCountry tbl ToUpper (removeSpaces c) = Inr iso3166"
  shows "parseInternal tbl ToUpper s c = Inr (normalizeDigits iso3166 s, iso3166)"
  using assms
  by (simp add: parseInternal_def removeSpaces_digits digitsOnly_digits digits_no_plus)

lemma normalizeDigits_cong:
  assumes "indexOfString (Alpha3 iso3166) [''GAB'', ''CIV'', ''COG''] = -1"
    and "leadZero (stripCodeZero (CountryCode iso3166) s) = leadZero (stripCodeZero (CountryCode iso3166) t)"
  shows "normalizeDigits iso3166 s = normalizeDigits iso3166 t"
  using assms by (simp add: normalizeDigits_def)

lemma indexOfString_exceptions:
  "(indexOfString a [''GAB'', ''CIV'', ''COG''] = -1) = (a \<notin> {''GAB'', ''CIV'', ''COG''})"
  by (simp add: Let_def)












section \<open>Claims on the validators and the pattern cache\<close>

text \<open>
  Claim C1. For every digit string and every country record of the data model, started from
  a good cache, \<open>validatePhoneISO3166\<close> returns \<open>(valid, mobile)\<close> where \<open>valid\<close> holds
  exactly when the landline check passes (\<open>PhoneNumberLengths\<close> is not empty, the digits
  begin with \<open>CountryCode\<close>, and their length is \<open>len(CountryCode) + l\<close> for some \<open>l\<close>
  of \<open>PhoneNumberLengths\<close>), \<open>mobile\<close> holds exactly when \<open>valid\<close> holds and the mobile
  check passes, and a failed landline check gives \<open>(false, false)\<close> whatever the mobile
  prefixes say.
\<close>

theorem validatePhoneISO3166_classification:
  assumes "cache_ok rMap" and "wfRecord country"
  shows "\<exists>valid mobile rMap'.
           validatePhoneISO3166 digits country rMap = Inr ((valid, mobile), rMap') \<and>
           cache_ok rMap' \<and>
           valid = (PhoneNumberLengths country \<noteq> [] \<and> prefix (CountryCode country) digits \<and>
                    (\<exists>l \<in> set (PhoneNumberLengths country).
                       int (length digits) = int (length (CountryCode country)) + l)) \<and>
           mobile = (valid \<and> mobileValid digits country) \<and>
           (\<not> valid \<longrightarrow> (valid, mobile) = (False, False))"
proof -
  from validatePhone_yields[OF assms, of digits]
  obtain m where "validatePhoneISO3166 digits country rMap =
      Inr ((landlineValid digits country, landlineValid digits country \<and> mobileValid digits country), m)"
    and "cache_ok m" by (rule yieldsE)
  then show ?thesis by (auto simp: landlineValid_def)
qed

text \<open>
  Witness of C1 on the sample record \<open>FRA\<close>: a mobile number, a landline number, and a
  number without the country code that has a mobile prefix but fails the landline check.
\<close>

theorem validatePhoneISO3166_classification_witness:
  "cache_ok Map.empty \<and> wfRecord FRA \<and>
   (\<exists>rMap'. validatePhoneISO3166 ''33612345678'' FRA Map.empty = Inr ((True, True), rMap')) \<and>
   (\<exists>rMap'. validatePhoneISO3166 ''33112345678'' FRA Map.empty = Inr ((True, False), rMap')) \<and>
   (\<exists>rMap'. validatePhoneISO3166 ''612345678'' FRA Map.empty = Inr ((False, False), rMap'))"
proof -
  have h1: "cache_ok Map.empty" by (simp add: cache_ok_def)
  have h2: "wfRecord FRA" by (simp add: wfRecord_def FRA_def digitString_def isDigit_def)
  show ?thesis
    using h1 h2 validatePhoneISO3166_classification [OF h1 h2, of "''33612345678''"]
      validatePhoneISO3166_classification [OF h1 h2, of "''33112345678''"]
      validatePhoneISO3166_classification [OF h1 h2, of "''612345678''"]
    by (auto simp: FRA_def mobileValid_def nationalPart_def)
qed

text \<open>
  Claim C3. For every digit string and every country record of the data model, started from
  a good cache, \<open>validateMobileISO3166\<close> returns true exactly when \<open>PhoneNumberLengths\<close>
  is not empty and, for the national part (the digits with the \<open>CountryCode\<close> prefix removed
  when it is there), some \<open>l\<close> of \<open>PhoneNumberLengths\<close> equals its length and some entry
  of \<open>MobileBeginWith\<close> is a prefix of it. An empty entry in \<open>MobileBeginWith\<close> matches
  every national part, so the length test alone decides.
\<close>

theorem validateMobileISO3166_characterisation:
  assumes "cache_ok rMap" and "wfRecord country"
  shows "\<exists>mobile rMap'.
           validateMobileISO3166 digits country rMap = Inr (mobile, rMap') \<and>
           cache_ok rMap' \<and>
           mobile = (PhoneNumberLengths country \<noteq> [] \<and>
                     (\<exists>l \<in> set (PhoneNumberLengths country).
                        l = int (length (nationalPart (CountryCode country) digits)) \<and>
                        (\<exists>w \<in> set (MobileBeginWith country).
                           prefix w (nationalPart (CountryCode country) digits)))) \<and>
           ([] \<in> set (MobileBeginWith country) \<longrightarrow>
              mobile = (\<exists>l \<in> set (PhoneNumberLengths country).
                          l = int (length (nationalPart (CountryCode country) digits))))"
proof -
  from validateMobile_yields[OF assms, of digits]
  obtain m where "validateMobileISO3166 digits country rMap = Inr (mobileValid digits country, m)"
    and "cache_ok m" by (rule yieldsE)
  then show ?thesis by (auto simp: mobileValid_def intro: bexI[of _ "[]"])
qed

text \<open>
  Witness of C3: a mobile and a landline number of \<open>FRA\<close>, and a record whose only mobile
  prefix is the empty string.
\<close>

theorem validateMobileISO3166_characterisation_witness:
  "cache_ok Map.empty \<and> wfRecord FRA \<and> wfRecord anyMobile \<and>
   (\<exists>rMap'. validateMobileISO3166 ''33612345678'' FRA Map.empty = Inr (True, rMap')) \<and>
   (\<exists>rMap'. validateMobileISO3166 ''33112345678'' FRA Map.empty = Inr (False, rMap')) \<and>
   (\<exists>rMap'. validateMobileISO3166 ''99123'' anyMobile Map.empty = Inr (True, rMap'))"
proof -
  have h1: "cache_ok Map.empty" by (simp add: cache_ok_def)
  have h2: "wfRecord FRA" by (simp add: wfRecord_def FRA_def digitString_def isDigit_def)
  have h3: "wfRecord anyMobile" by (simp add: wfRecord_def anyMobile_def digitString_def isDigit_def)
  show ?thesis
    using h1 h2 h3 validateMobileISO3166_characterisation [OF h1 h2, of "''33612345678''"]
      validateMobileISO3166_characterisation [OF h1 h2, of "''33112345678''"]
      validateMobileISO3166_characterisation [OF h1 h3, of "''99123''"]
    by (auto simp: FRA_def anyMobile_def nationalPart_def)
qed

text \<open>
  Claim C9 says that for every prefix string \<open>p\<close> the expression returned by
  \<open>getRegexpByCountryCode(p)\<close> matches \<open>s\<close> exactly when \<open>s\<close> starts with \<open>p\<close>.
  The key is compiled as a pattern: for \<open>p = "1?"\<close> the expression is \<open>^1?\<close>, which
  matches \<open>"5"\<close>, although \<open>"5"\<close> does not start with \<open>"1?"\<close>.
\<close>

theorem getRegexpByCountryCode_metacharacter_counterexample:
  "getRegexpByCountryCode ''1?'' Map.empty =
     Inr (Anchored [Opt (CHR ''1'')], [''1?'' \<mapsto> Anchored [Opt (CHR ''1'')]]) \<and>
   MatchString (Anchored [Opt (CHR ''1'')]) ''5'' \<and> \<not> prefix ''1?'' ''5''"
  by (simp add: getRegexpByCountryCode_def MustCompile_def isLiteral_def MatchString_def)

text \<open>
  Claim C9, amended. For every prefix string \<open>p\<close> made of ASCII letters and digits only (as
  every country code and mobile prefix is), started from a good cache,
  \<open>getRegexpByCountryCode(p)\<close> returns an expression that matches \<open>s\<close> exactly when
  \<open>s\<close> starts with \<open>p\<close>, and leaves a good cache.
\<close>

theorem getRegexpByCountryCode_literal_prefix:
  assumes "cache_ok rMap" and "literalString p"
  shows "\<exists>r rMap'. getRegexpByCountryCode p rMap = Inr (r, rMap') \<and> cache_ok rMap' \<and>
           (\<forall>s. MatchString r s = prefix p s)"
proof -
  from getRegexp_literal[OF assms]
  obtain m where "getRegexpByCountryCode p rMap = Inr (Anchored (map Lit p), m)"
    and "cache_ok m" by (rule yieldsE)
  then show ?thesis by (simp add: MatchString_literal)
qed

text \<open>
  Witness of the amended C9 at the key \<open>"44"\<close> and the empty cache.
\<close>

theorem getRegexpByCountryCode_literal_prefix_witness:
  "cache_ok Map.empty \<and> literalString ''44'' \<and>
   (\<exists>r rMap'. getRegexpByCountryCode ''44'' Map.empty = Inr (r, rMap') \<and> cache_ok rMap' \<and>
      (\<forall>s. MatchString r s = prefix ''44'' s))"
proof -
  have h1: "cache_ok Map.empty" by (simp add: cache_ok_def)
  have h2: "literalString ''44''" by (simp add: literalString_def isLiteral_def)
  show ?thesis using h1 h2 getRegexpByCountryCode_literal_prefix [OF h1 h2] by simp
qed

section \<open>Claims on the public operations\<close>

text \<open>
  Claim C2. For every number string and country identifier, \<open>ParseWithFlags\<close> never returns
  \<open>valid = false\<close> together with a non-empty normalized string: whenever it returns with
  \<open>valid = false\<close> the string is empty. On a non-empty table of records of the data model
  and a good cache it does return.
\<close>

theorem ParseWithFlags_invalid_is_empty:
  "(\<forall>normalized valid mobile rMap'.
      ParseWithFlags tbl ToUpper number country rMap = Inr ((normalized, valid, mobile), rMap')
        \<longrightarrow> \<not> valid \<longrightarrow> normalized = []) \<and>
   (cache_ok rMap \<and> wfTable tbl \<and> tbl \<noteq> [] \<longrightarrow>
      (\<exists>normalized valid mobile rMap'.
         ParseWithFlags tbl ToUpper number country rMap = Inr ((normalized, valid, mobile), rMap')))"
proof (intro conjI allI impI)
  fix normalized valid mobile rMap'
  assume "ParseWithFlags tbl ToUpper number country rMap = Inr ((normalized, valid, mobile), rMap')"
    and "\<not> valid"
  then show "normalized = []"
    by (auto simp: ParseWithFlags_def split: sum.splits prod.splits if_splits)
next
  assume a: "cache_ok rMap \<and> wfTable tbl \<and> tbl \<noteq> []"
  then obtain parsed iso3166 where p: "parseInternal tbl ToUpper number country = Inr (parsed, iso3166)"
    using parseInternal_total by blast
  with a have "wfRecord iso3166" using parseInternal_wf by blast
  with a validatePhone_yields[of rMap iso3166 parsed]
  obtain v m where "validatePhoneISO3166 parsed iso3166 rMap = Inr (v, m)"
    by (auto elim: yieldsE)
  with p show "\<exists>normalized valid mobile rMap'.
         ParseWithFlags tbl ToUpper number country rMap = Inr ((normalized, valid, mobile), rMap')"
    by (cases v) (simp add: ParseWithFlags_def)
qed

text \<open>
  Witness of C2: eight digits are no French number, so the flags are false and the string
  is empty.
\<close>

theorem ParseWithFlags_invalid_is_empty_witness:
  "cache_ok Map.empty \<and> wfTable [FRA] \<and> [FRA] \<noteq> [] \<and>
   (\<exists>rMap'. ParseWithFlags [FRA] asciiUpper ''12345678'' ''FR'' Map.empty
      = Inr (([], False, False), rMap'))"
proof -
  have h: "cache_ok Map.empty \<and> wfTable [FRA] \<and> [FRA] \<noteq> []"
    by (simp add: cache_ok_def wfTable_def wf_FRA)
  have p: "parseInternal [FRA] asciiUpper ''12345678'' ''FR'' = Inr (''12345678'', FRA)"
    by (simp add: parseInternal_def removeSpaces_def digitsOnly_def isDigit_def
        getISO3166ByCountry_def asciiUpper_def FRA_def normalizeDigits_def stripCodeZero_def leadZero_def
        rusLocaleMobPrefix_def)

  from ParseWithFlags_invalid_is_empty[of "[FRA]" asciiUpper "''12345678''" "''FR''" Map.empty] h
  obtain n va mo r where r: "ParseWithFlags [FRA] asciiUpper ''12345678'' ''FR'' Map.empty = Inr ((n, va, mo), r)"
    and e: "\<not> va \<longrightarrow> n = []" by blast
  from r p have "\<not> va \<and> \<not> mo"
    by (auto simp: ParseWithFlags_def validatePhoneISO3166_def validateLandlineISO3166_def FRA_def
        getRegexpByCountryCode_def MustCompile_def isLiteral_def MatchString_def
        split: sum.splits prod.splits if_splits)
  with r e h show ?thesis by auto
qed

text \<open>
  Claim C4 says that \<open>getISO3166ByCountry\<close> trims spaces from its input before it
  dispatches on the length. It does not: \<open>" FR"\<close> has three bytes, is compared with the
  \<open>Alpha3\<close> fields and resolves to the zero value, where \<open>"FR"\<close> resolves to the French
  record. The spaces are removed by the caller \<open>parseInternal\<close>, and all of them: a name of
  two words, which \<open>getISO3166ByCountry\<close> finds by itself, never reaches it in one piece.
\<close>

theorem getISO3166ByCountry_no_trim_counterexample:
  "getISO3166ByCountry sampleTable asciiUpper '' FR'' = Inr zeroISO3166 \<and>
   getISO3166ByCountry sampleTable asciiUpper ''FR'' = Inr FRA \<and>
   getISO3166ByCountry sampleTable asciiUpper ''ivory coast'' = Inr CIV \<and>
   parseInternal sampleTable asciiUpper ''0712345678'' '' ivory coast '' =
     Inr (''712345678'', zeroISO3166)"
  by (simp add: getISO3166ByCountry_def parseInternal_def sampleTable_def asciiUpper_def
      FRA_def DEU_def KAZ_def CIV_def zeroISO3166_def removeSpaces_def digitsOnly_def
      isDigit_def normalizeDigits_def stripCodeZero_def leadZero_def rusLocaleMobPrefix_def)

text \<open>
  Claim C4, amended. \<open>getISO3166ByCountry\<close> removes no space from its input (its caller
  \<open>parseInternal\<close> removes every space from the identifier and resolves what is left); it
  compares with the upper-cased input and dispatches on the length of the input in bytes:
  an empty identifier gives the first record of the table; two bytes give the first record
  whose \<open>Alpha2\<close> is the upper-cased input; three bytes the first record whose \<open>Alpha3\<close>
  is; any other length the first record whose upper-cased \<open>CountryName\<close> is; without a
  match the result is the zero value, with empty \<open>CountryCode\<close> and
  \<open>PhoneNumberLengths\<close>, for which every validator answers false.
\<close>

theorem getISO3166ByCountry_dispatch:
  "(country = [] \<and> tbl \<noteq> [] \<longrightarrow> getISO3166ByCountry tbl ToUpper country = Inr (hd tbl)) \<and>
   (length country = 2 \<longrightarrow>
      getISO3166ByCountry tbl ToUpper country =
        Inr (case find (\<lambda>i. Alpha2 i = ToUpper country) tbl of
               Some i \<Rightarrow> i | None \<Rightarrow> zeroISO3166)) \<and>
   (length country = 3 \<longrightarrow>
      getISO3166ByCountry tbl ToUpper country =
        Inr (case find (\<lambda>i. Alpha3 i = ToUpper country) tbl of
               Some i \<Rightarrow> i | None \<Rightarrow> zeroISO3166)) \<and>
   (length country \<notin> {0, 2, 3} \<longrightarrow>
      getISO3166ByCountry tbl ToUpper country =
        Inr (case find (\<lambda>i. ToUpper (CountryName i) = ToUpper country) tbl of
               Some i \<Rightarrow> i | None \<Rightarrow> zeroISO3166)) \<and>
   (\<not> (prefix ''+'' (removeSpaces number) \<and> removeSpaces country = []) \<longrightarrow>
      map_sum id snd (parseInternal tbl ToUpper number country) =
        getISO3166ByCountry tbl ToUpper (removeSpaces country)) \<and>
   CountryCode zeroISO3166 = [] \<and> PhoneNumberLengths zeroISO3166 = [] \<and>
   validateMobileISO3166 digits zeroISO3166 rMap = Inr (False, rMap) \<and>
   validateLandlineISO3166 digits zeroISO3166 rMap = Inr (False, rMap) \<and>
   validatePhoneISO3166 digits zeroISO3166 rMap = Inr ((False, False), rMap)"
proof -
  have a: "country = [] \<and> tbl \<noteq> [] \<longrightarrow> getISO3166ByCountry tbl ToUpper country = Inr (hd tbl)"
    by (cases tbl) (simp_all add: getISO3166ByCountry_def)
  have b: "\<not> (prefix ''+'' (removeSpaces number) \<and> removeSpaces country = []) \<longrightarrow>
      map_sum id snd (parseInternal tbl ToUpper number country) =
        getISO3166ByCountry tbl ToUpper (removeSpaces country)"
    by (auto simp: parseInternal_def Let_def split: sum.splits)
  have c: "CountryCode zeroISO3166 = [] \<and> PhoneNumberLengths zeroISO3166 = []"
    by (simp add: zeroISO3166_def)
  show ?thesis
    using a b c
    by (simp add: getISO3166ByCountry_def Let_def firstMatch_find validateMobile_zero
        validateLandline_zero validatePhone_zero)
qed

text \<open>
  Witness of the amended C4 on the sample table, one identifier for each branch.
\<close>

theorem getISO3166ByCountry_dispatch_witness:
  "getISO3166ByCountry sampleTable asciiUpper [] = Inr FRA \<and>
   getISO3166ByCountry sampleTable asciiUpper ''de'' = Inr DEU \<and>
   getISO3166ByCountry sampleTable asciiUpper ''kaz'' = Inr KAZ \<and>
   getISO3166ByCountry sampleTable asciiUpper ''Germany'' = Inr DEU \<and>
   getISO3166ByCountry sampleTable asciiUpper ''XX'' = Inr zeroISO3166 \<and>
   map_sum id snd (parseInternal sampleTable asciiUpper ''612345678'' '' f r '') = Inr FRA"
proof -
  have "getISO3166ByCountry sampleTable asciiUpper [] = Inr FRA"
    using getISO3166ByCountry_dispatch [of "[]" sampleTable asciiUpper]
    by (simp add: sampleTable_def)
  moreover have "getISO3166ByCountry sampleTable asciiUpper ''de'' = Inr DEU"
    using getISO3166ByCountry_dispatch [of "''de''" sampleTable asciiUpper]
    by (simp add: sampleTable_def asciiUpper_def FRA_def DEU_def)
  moreover have "getISO3166ByCountry sampleTable asciiUpper ''kaz'' = Inr KAZ"
    using getISO3166ByCountry_dispatch [of "''kaz''" sampleTable asciiUpper]
    by (simp add: sampleTable_def asciiUpper_def FRA_def DEU_def KAZ_def)
  moreover have "getISO3166ByCountry sampleTable asciiUpper ''Germany'' = Inr DEU"
    using getISO3166ByCountry_dispatch [of "''Germany''" sampleTable asciiUpper]
    by (simp add: sampleTable_def asciiUpper_def FRA_def DEU_def)
  moreover have "getISO3166ByCountry sampleTable asciiUpper ''XX'' = Inr zeroISO3166"
    using getISO3166ByCountry_dispatch [of "''XX''" sampleTable asciiUpper]
    by (simp add: sampleTable_def asciiUpper_def FRA_def DEU_def KAZ_def CIV_def)
  moreover have "map_sum id snd (parseInternal sampleTable asciiUpper ''612345678'' '' f r '') = Inr FRA"
    using getISO3166ByCountry_dispatch [of "'' f r ''" sampleTable asciiUpper "''612345678''"]
      getISO3166ByCountry_dispatch [of "''fr''" sampleTable asciiUpper]
    by (simp add: removeSpaces_def sampleTable_def asciiUpper_def FRA_def)
  ultimately show ?thesis by simp
qed


text \<open>
  Claim C5. When the number, spaces removed, begins with \<open>+\<close> and the country identifier,
  spaces removed, is empty, \<open>parseInternal\<close> returns the empty string and the zero value,
  so \<open>Parse\<close> and \<open>ParseWithLandLine\<close> return the empty string and
  \<open>ParseWithFlags\<close> returns the empty string with both flags false, whatever the table
  and the cache; in particular \<open>Parse("+", "")\<close> is the empty string.
\<close>

theorem parseInternal_plus_without_country:
  "(prefix ''+'' (removeSpaces number) \<and> removeSpaces country = [] \<longrightarrow>
      parseInternal tbl ToUpper number country = Inr ([], zeroISO3166) \<and>
      Parse tbl ToUpper number country rMap = Inr ([], rMap) \<and>
      ParseWithLandLine tbl ToUpper number country rMap = Inr ([], rMap) \<and>
      ParseWithFlags tbl ToUpper number country rMap = Inr (([], False, False), rMap)) \<and>
   Parse tbl ToUpper ''+'' [] rMap = Inr ([], rMap)"
proof -
  have p: "parseInternal tbl ToUpper n c = Inr ([], zeroISO3166)"
    if "prefix ''+'' (removeSpaces n)" and "removeSpaces c = []" for n c
    using that by (simp add: parseInternal_def)
  have q: "Parse tbl ToUpper n c rMap = Inr ([], rMap) \<and>
      ParseWithLandLine tbl ToUpper n c rMap = Inr ([], rMap) \<and>
      ParseWithFlags tbl ToUpper n c rMap = Inr (([], False, False), rMap)"
    if "parseInternal tbl ToUpper n c = Inr ([], zeroISO3166)" for n c
    using that
    by (simp add: Parse_def ParseWithLandLine_def ParseWithFlags_def validateMobile_zero
        validateLandline_zero validatePhone_zero)
  have "prefix ''+'' (removeSpaces ''+'')" and "removeSpaces [] = []"
    by (simp_all add: removeSpaces_def)
  from p[OF this] q have "Parse tbl ToUpper ''+'' [] rMap = Inr ([], rMap)" by blast
  with p q show ?thesis by blast
qed

text \<open>
  Witness of C5 at \<open>" +33 6 12"\<close> with a country identifier of two spaces.
\<close>

theorem parseInternal_plus_without_country_witness:
  "prefix ''+'' (removeSpaces '' +33 6 12'') \<and> removeSpaces ''  '' = [] \<and>
   parseInternal sampleTable asciiUpper '' +33 6 12'' ''  '' = Inr ([], zeroISO3166) \<and>
   Parse sampleTable asciiUpper '' +33 6 12'' ''  '' Map.empty = Inr ([], Map.empty) \<and>
   ParseWithLandLine sampleTable asciiUpper '' +33 6 12'' ''  '' Map.empty = Inr ([], Map.empty) \<and>
   ParseWithFlags sampleTable asciiUpper '' +33 6 12'' ''  '' Map.empty
     = Inr (([], False, False), Map.empty)"
proof -
  have h: "prefix ''+'' (removeSpaces '' +33 6 12'') \<and> removeSpaces ''  '' = []"
    by (simp add: removeSpaces_def)
  show ?thesis
    using h parseInternal_plus_without_country
      [of "'' +33 6 12''" "''  ''" sampleTable asciiUpper Map.empty]
    by simp
qed

section \<open>Claims on the lookup by number\<close>

text \<open>
  Claim C6. On a table of records of the data model, started from a good cache,
  \<open>GetISO3166ByNumber\<close> scans the records in table order. A record is a mobile match
  when the number starts with its country code, the total length is
  \<open>len(CountryCode) + l\<close> for an accepted \<open>l\<close>, and the number starts with the country
  code followed by one of its mobile prefixes: the first such record is returned at once.
  Without any mobile match, and with \<open>withLandLine\<close>, the result is the last record of
  the table that passes the length and country-code test (the first one of the reversed
  table), or the zero value when there is none; without \<open>withLandLine\<close> it is the zero
  value.
\<close>

theorem GetISO3166ByNumber_scan:
  assumes "cache_ok rMap" and "wfTable tbl"
  shows "\<exists>rMap'. cache_ok rMap' \<and>
           GetISO3166ByNumber tbl number withLandLine rMap =
             Inr (case find (mobileHit number) tbl of
                    Some i \<Rightarrow> i
                  | None \<Rightarrow>
                      if withLandLine then
                        (case find (landlineValid number) (rev tbl) of
                           Some i \<Rightarrow> i | None \<Rightarrow> zeroISO3166)
                      else zeroISO3166, rMap')"
  using numberLoop_yields[OF assms, of number withLandLine zeroISO3166]
  by (auto simp: GetISO3166ByNumber_def yields_def)

text \<open>
  Witness of C6 on two records that share the country code 33: a mobile match of the second
  record; a landline-only number, for which the last record wins with \<open>withLandLine\<close> and
  the zero value comes back without it; a mobile match of the first record.
\<close>

theorem GetISO3166ByNumber_scan_witness:
  "cache_ok Map.empty \<and> wfTable [FRA, FRL] \<and>
   (\<exists>rMap'. GetISO3166ByNumber [FRA, FRL] ''33812345678'' False Map.empty = Inr (FRL, rMap')) \<and>
   (\<exists>rMap'. GetISO3166ByNumber [FRA, FRL] ''33112345678'' True Map.empty = Inr (FRL, rMap')) \<and>
   (\<exists>rMap'. GetISO3166ByNumber [FRA, FRL] ''33112345678'' False Map.empty = Inr (zeroISO3166, rMap')) \<and>
   (\<exists>rMap'. GetISO3166ByNumber [FRA, FRL] ''33612345678'' True Map.empty = Inr (FRA, rMap'))"
proof -
  have h1: "cache_ok Map.empty" by (simp add: cache_ok_def)
  have h2: "wfTable [FRA, FRL]" by (simp add: wfTable_def wf_FRA wf_FRL)
  have ne: "FRA \<noteq> FRL" by (simp add: FRA_def FRL_def)
  show ?thesis
    using h1 h2 GetISO3166ByNumber_scan [OF h1 h2, of "''33812345678''" False]
      GetISO3166ByNumber_scan [OF h1 h2, of "''33112345678''" True]
      GetISO3166ByNumber_scan [OF h1 h2, of "''33112345678''" False]
      GetISO3166ByNumber_scan [OF h1 h2, of "''33612345678''" True]
    by (auto simp: mobileHit_def landlineValid_def FRA_def FRL_def)
qed
text \<open>
  Claim C10. When the \<open>MobileBeginWith\<close> of a record contains the empty string, every
  number that starts with its country code and has a total length \<open>len(CountryCode) + l\<close>
  for an accepted \<open>l\<close> makes the scan return that record as soon as it reaches it,
  whatever \<open>withLandLine\<close>, the records that follow and the candidate held so far; so the
  whole lookup returns it when no earlier record is a mobile match. The loop over the
  lengths of such a record never ends by recording it as the landline candidate.
\<close>

theorem GetISO3166ByNumber_empty_mobile_prefix:
  assumes "cache_ok rMap" and "wfRecord i" and "[] \<in> set (MobileBeginWith i)"
    and "prefix (CountryCode i) number" and "l \<in> set (PhoneNumberLengths i)"
    and "int (length number) = int (length (CountryCode i)) + l"
  shows "(\<exists>rMap'. numberLoop (i # post) number withLandLine iso3166 rMap = Inr (i, rMap')) \<and>
         (wfTable pre \<and> (\<forall>j \<in> set pre. \<not> mobileHit number j) \<longrightarrow>
            (\<exists>rMap'. GetISO3166ByNumber (pre @ i # post) number withLandLine rMap = Inr (i, rMap'))) \<and>
         (\<forall>n c rMap1 e rMap2. cache_ok rMap1 \<longrightarrow>
            numberLengthsLoop (PhoneNumberLengths i) i (Anchored (map Lit (CountryCode i))) n c rMap1
              = Inr (e, rMap2) \<longrightarrow> e \<noteq> Broke)"
proof -
  from assms(3,4) have "\<exists>w \<in> set (MobileBeginWith i). prefix (CountryCode i @ w) number"
    by (intro bexI[of _ "[]"]) simp_all
  with assms(4-6) have hit: "mobileHit number i"
    by (auto simp: mobileHit_def landlineValid_def)
  have ret: "\<exists>rMap'. numberLoop (i # post) number withLandLine a m = Inr (i, rMap')"
    if "cache_ok m" for a m
  proof -
    from recordExit_yields[OF that assms(2), of number withLandLine] hit
    obtain m1 m2 where
      "getRegexpByCountryCode (CountryCode i) m = Inr (Anchored (map Lit (CountryCode i)), m1)"
      and "numberLengthsLoop (PhoneNumberLengths i) i (Anchored (map Lit (CountryCode i))) number
               withLandLine m1 = Inr (Returned, m2)"
      by auto
    then show ?thesis by simp
  qed
  have skip: "\<exists>rMap'. GetISO3166ByNumber (pre @ i # post) number withLandLine rMap = Inr (i, rMap')"
    if "wfTable pre \<and> (\<forall>j \<in> set pre. \<not> mobileHit number j)"
  proof -
    from numberLoop_skip[OF assms(1), of pre number withLandLine zeroISO3166] that
    obtain a m where "cache_ok m" and "numberLoop (pre @ i # post) number withLandLine zeroISO3166 rMap
        = numberLoop (i # post) number withLandLine a m" by blast
    with ret[of m a] show ?thesis by (simp add: GetISO3166ByNumber_def)
  qed
  have nobreak: "e \<noteq> Broke"
    if "cache_ok rMap1"
      and "numberLengthsLoop (PhoneNumberLengths i) i (Anchored (map Lit (CountryCode i))) n c rMap1
              = Inr (e, rMap2)" for n c rMap1 e rMap2
  proof -
    from assms(3) have "prefix (CountryCode i) n \<Longrightarrow>
        \<exists>w \<in> set (MobileBeginWith i). prefix (CountryCode i @ w) n"
      by (intro bexI[of _ "[]"]) simp_all
    with numberLengthsLoop_yields[OF that(1) assms(2), of "PhoneNumberLengths i" n c] that(2)
    show ?thesis by (auto simp: yields_def split: if_splits)
  qed
  from ret[OF assms(1)] skip nobreak show ?thesis by blast
qed

text \<open>
  Witness of C10: the record whose only mobile prefix is empty, behind a record that does
  not match, with \<open>withLandLine\<close> false.
\<close>

theorem GetISO3166ByNumber_empty_mobile_prefix_witness:
  "cache_ok Map.empty \<and> wfRecord anyMobile \<and> [] \<in> set (MobileBeginWith anyMobile) \<and>
   prefix (CountryCode anyMobile) ''99123'' \<and> 3 \<in> set (PhoneNumberLengths anyMobile) \<and>
   int (length ''99123'') = int (length (CountryCode anyMobile)) + 3 \<and>
   wfTable [FRA] \<and> \<not> mobileHit ''99123'' FRA \<and>
   (\<exists>rMap'. GetISO3166ByNumber ([FRA] @ anyMobile # [DEU]) ''99123'' False Map.empty
      = Inr (anyMobile, rMap'))"
proof -
  have h1: "cache_ok Map.empty" by (simp add: cache_ok_def)
  have h2: "wfRecord anyMobile" by (rule wf_anyMobile)
  have h3: "[] \<in> set (MobileBeginWith anyMobile)" by (simp add: anyMobile_def)
  have h4: "prefix (CountryCode anyMobile) ''99123''" by (simp add: anyMobile_def)
  have h5: "3 \<in> set (PhoneNumberLengths anyMobile)" by (simp add: anyMobile_def)
  have h6: "int (length ''99123'') = int (length (CountryCode anyMobile)) + 3"
    by (simp add: anyMobile_def)
  have "\<not> mobileHit ''99123'' FRA"
    by (simp add: mobileHit_def landlineValid_def FRA_def)
  then have h7: "wfTable [FRA] \<and> (\<forall>j \<in> set [FRA]. \<not> mobileHit ''99123'' j)"
    by (simp add: wfTable_def wf_FRA)
  from GetISO3166ByNumber_empty_mobile_prefix [OF h1 h2 h3 h4 h5 h6, of "[DEU]" False zeroISO3166 "[FRA]"] h7
  have "\<exists>rMap'. GetISO3166ByNumber ([FRA] @ anyMobile # [DEU]) ''99123'' False Map.empty
      = Inr (anyMobile, rMap')" by blast
  with h1 h2 h3 h4 h5 h6 h7 show ?thesis by simp
qed

section \<open>Claims on normalization\<close>



text \<open>
  Claim C8 says that for a record outside the leading-zero exception set and a national
  digit string \<open>n\<close> of an accepted length, \<open>Parse("0" + n, c) = Parse(n, c)\<close>. It fails
  when \<open>n\<close> itself begins with the country code followed by 0: with country code 7 and
  the mobile prefix 70, \<open>n = 7012345678\<close> is taken for a number that carries its
  country code and loses two digits, where \<open>0 + n\<close> is parsed to \<open>77012345678\<close>. The
  second record shows the failure for a country code that begins with 0.
\<close>

theorem Parse_trunk_zero_counterexample:
  "getISO3166ByCountry sampleTable asciiUpper ''KZ'' = Inr KAZ \<and>
   Alpha3 KAZ \<notin> {''GAB'', ''CIV'', ''COG''} \<and>
   int (length ''7012345678'') \<in> set (PhoneNumberLengths KAZ) \<and>
   map_sum id fst (Parse sampleTable asciiUpper ''07012345678'' ''KZ'' Map.empty) = Inr ''77012345678'' \<and>
   map_sum id fst (Parse sampleTable asciiUpper ''7012345678'' ''KZ'' Map.empty) = Inr [] \<and>
   map_sum id fst (Parse [codeZero] asciiUpper ''0101'' ''ZZ'' Map.empty) = Inr [] \<and>
   map_sum id fst (Parse [codeZero] asciiUpper ''101'' ''ZZ'' Map.empty) = Inr ''01101''"
proof -
  have r: "getISO3166ByCountry sampleTable asciiUpper ''KZ'' = Inr KAZ"
    by (simp add: getISO3166ByCountry_def sampleTable_def asciiUpper_def FRA_def DEU_def KAZ_def)
  have z: "getISO3166ByCountry [codeZero] asciiUpper ''ZZ'' = Inr codeZero"
    by (simp add: getISO3166ByCountry_def Let_def asciiUpper_def codeZero_def)
  have k: "Alpha3 KAZ \<notin> {''GAB'', ''CIV'', ''COG''} \<and>
      int (length ''7012345678'') \<in> set (PhoneNumberLengths KAZ)"
    by (simp add: KAZ_def)
  have p1: "parseInternal sampleTable asciiUpper ''07012345678'' ''KZ'' = Inr (''77012345678'', KAZ)"
    using r by (simp add: parseInternal_def Let_def removeSpaces_def digitsOnly_def isDigit_def
        normalizeDigits_def stripCodeZero_def leadZero_def rusLocaleMobPrefix_def KAZ_def)
  have p2: "parseInternal sampleTable asciiUpper ''7012345678'' ''KZ'' = Inr (''712345678'', KAZ)"
    using r by (simp add: parseInternal_def Let_def removeSpaces_def digitsOnly_def isDigit_def
        normalizeDigits_def stripCodeZero_def leadZero_def rusLocaleMobPrefix_def KAZ_def)
  have p3: "parseInternal [codeZero] asciiUpper ''0101'' ''ZZ'' = Inr (''11'', codeZero)"
    using z by (simp add: parseInternal_def Let_def removeSpaces_def digitsOnly_def isDigit_def
        normalizeDigits_def stripCodeZero_def leadZero_def rusLocaleMobPrefix_def codeZero_def)
  have p4: "parseInternal [codeZero] asciiUpper ''101'' ''ZZ'' = Inr (''01101'', codeZero)"
    using z by (simp add: parseInternal_def Let_def removeSpaces_def digitsOnly_def isDigit_def
        normalizeDigits_def stripCodeZero_def leadZero_def rusLocaleMobPrefix_def codeZero_def)
  have v1: "map_sum id fst (validateMobileISO3166 ''77012345678'' KAZ Map.empty) = Inr True"
    by (simp add: validateMobileISO3166_def KAZ_def getRegexpByCountryCode_def MustCompile_def
        isLiteral_def ReplaceAllString_def MatchString_def)
  have v2: "map_sum id fst (validateMobileISO3166 ''712345678'' KAZ Map.empty) = Inr False"
    by (simp add: validateMobileISO3166_def KAZ_def getRegexpByCountryCode_def MustCompile_def
        isLiteral_def ReplaceAllString_def MatchString_def)
  have v3: "map_sum id fst (validateMobileISO3166 ''11'' codeZero Map.empty) = Inr False"
    by (simp add: validateMobileISO3166_def codeZero_def getRegexpByCountryCode_def MustCompile_def
        isLiteral_def ReplaceAllString_def MatchString_def)
  have v4: "map_sum id fst (validateMobileISO3166 ''01101'' codeZero Map.empty) = Inr True"
    by (simp add: validateMobileISO3166_def codeZero_def getRegexpByCountryCode_def MustCompile_def
        isLiteral_def ReplaceAllString_def MatchString_def)
  have P: "map_sum id fst (Parse tbl up n c Map.empty) = Inr (if ok then p else [])"
    if "parseInternal tbl up n c = Inr (p, i)"
      and "map_sum id fst (validateMobileISO3166 p i Map.empty) = Inr ok" for tbl up n c p i ok
    using that by (auto simp: Parse_def split: sum.splits)
  from r k P[OF p1 v1] P[OF p2 v2] P[OF p3 v3] P[OF p4 v4] show ?thesis by simp
qed

text \<open>
  Claim C8, amended. For every country identifier resolved to a record whose alpha-3 code is
  not in the leading-zero exception set and whose country code does not begin with 0, and
  every national digit string \<open>n\<close> (of an accepted length or not) that does not begin with
  the country code followed by 0, \<open>parseInternal("0" + n, c) = parseInternal(n, c)\<close>, so
  \<open>Parse\<close>, \<open>ParseWithLandLine\<close> and \<open>ParseWithFlags\<close> give the same on both.
\<close>

theorem Parse_trunk_zero:
  assumes "getISO3166ByCountry tbl ToUpper (removeSpaces c) = Inr iso3166"
    and "Alpha3 iso3166 \<notin> {''GAB'', ''CIV'', ''COG''}"
    and "digitString n"
    and "\<not> prefix ''0'' (CountryCode iso3166)"
    and "\<not> prefix (CountryCode iso3166 @ ''0'') n"
  shows "parseInternal tbl ToUpper (CHR ''0'' # n) c = parseInternal tbl ToUpper n c \<and>
         Parse tbl ToUpper (CHR ''0'' # n) c rMap = Parse tbl ToUpper n c rMap \<and>
         ParseWithLandLine tbl ToUpper (CHR ''0'' # n) c rMap = ParseWithLandLine tbl ToUpper n c rMap \<and>
         ParseWithFlags tbl ToUpper (CHR ''0'' # n) c rMap = ParseWithFlags tbl ToUpper n c rMap"
proof -
  let ?cc = "CountryCode iso3166"
  from assms(3) have d0: "digitString (CHR ''0'' # n)"
    by (simp add: digitString_def isDigit_def)
  have n: "stripCodeZero ?cc n = n" using assms(5) by (rule stripCodeZero_id)
  have z: "leadZero (stripCodeZero ?cc (CHR ''0'' # n)) = leadZero n"
  proof (cases "?cc = []")
    case True
    then show ?thesis by (simp add: stripCodeZero_def)
  next
    case False
    with assms(4) have "\<not> prefix ?cc (CHR ''0'' # n)"
      by (cases ?cc) auto
    then show ?thesis by (simp add: stripCodeZero_noprefix leadZero_def)
  qed
  from assms(2) have "indexOfString (Alpha3 iso3166) [''GAB'', ''CIV'', ''COG''] = -1"
    by (simp add: indexOfString_exceptions)
  from normalizeDigits_cong[OF this, of "CHR ''0'' # n" n] n z
  have "normalizeDigits iso3166 (CHR ''0'' # n) = normalizeDigits iso3166 n" by simp
  with parseInternal_digits[OF d0 assms(1)] parseInternal_digits[OF assms(3) assms(1)]
  have "parseInternal tbl ToUpper (CHR ''0'' # n) c = parseInternal tbl ToUpper n c" by simp
  then show ?thesis
    by (simp add: Parse_def ParseWithLandLine_def ParseWithFlags_def)
qed

text \<open>
  Witness of the amended C8 on the French record.
\<close>

theorem Parse_trunk_zero_witness:
  "getISO3166ByCountry sampleTable asciiUpper (removeSpaces ''FR'') = Inr FRA \<and>
   Alpha3 FRA \<notin> {''GAB'', ''CIV'', ''COG''} \<and> digitString ''612345678'' \<and>
   \<not> prefix ''0'' (CountryCode FRA) \<and> \<not> prefix (CountryCode FRA @ ''0'') ''612345678'' \<and>
   Parse sampleTable asciiUpper ''0612345678'' ''FR'' Map.empty
     = Parse sampleTable asciiUpper ''612345678'' ''FR'' Map.empty"
proof -
  have h1: "getISO3166ByCountry sampleTable asciiUpper (removeSpaces ''FR'') = Inr FRA"
    by (simp add: getISO3166ByCountry_def removeSpaces_def sampleTable_def asciiUpper_def FRA_def)
  have h2: "Alpha3 FRA \<notin> {''GAB'', ''CIV'', ''COG''}" by (simp add: FRA_def)
  have h3: "digitString ''612345678''" by (simp add: digitString_def isDigit_def)
  have h4: "\<not> prefix ''0'' (CountryCode FRA)" by (simp add: FRA_def)
  have h5: "\<not> prefix (CountryCode FRA @ ''0'') ''612345678''" by (simp add: FRA_def)
  show ?thesis
    using h1 h2 h3 h4 h5 Parse_trunk_zero [OF h1 h2 h3 h4 h5, of Map.empty]
    by simp
qed

end
